theory Spec2Isabelle
  imports Complex_Main
begin

section \<open>The ELP2000 calculator (src/src/ELP2000Calculator.js)\<close>

text \<open>
  The calculator evaluates a truncated trigonometric series and synthesises truncation
  plans.  JavaScript numbers are modelled in exact arithmetic: amplitudes, phases, time
  powers and error budgets are \<^typ>\<open>real\<close>, \<open>Math.sqrt\<close> is \<^const>\<open>sqrt\<close>,
  \<open>Math.cos\<close> is \<^const>\<open>cos\<close>; entries of a truncation array are \<^typ>\<open>int\<close>
  (the decrement \<open>tNumsArray[item]--\<close> can leave the naturals).  Rounding, \<open>NaN\<close> and
  infinities of IEEE doubles are outside the model.
\<close>

subsection \<open>Data\<close>

text \<open>
  \<open>throw Error(msg)\<close> of the parameter checks, and the \<open>TypeError\<close> the engine raises
  when a property of \<open>undefined\<close> is read.
\<close>

datatype error = Error string | TypeError

text \<open>
  One series term is the array \<open>[A, p0, p1, p2, p3, p4]\<close>: the code reads index 0 as
  the amplitude and indices 1 to 5 as the phase polynomial.
\<close>

record series_term =
  amplitude :: real
  phase0 :: real
  phase1 :: real
  phase2 :: real
  phase3 :: real
  phase4 :: real

type_synonym block = "series_term list"
type_synonym series_model = "block list"

text \<open>
  The time context \<open>JDateRepository\<close> comes from the package \<open>@behaver/jdate\<close>.  The
  calculator only reads \<open>jdr.JDEC\<close> (Julian centuries) and \<open>jdr.JDECP(k)\<close> (its
  \<open>k\<close>-th power), so a repository is the record of these two observations; nothing is
  assumed about how \<open>JDECP\<close> relates to \<open>JDEC\<close>.  The constructor
  \<open>new JDateRepository(jd)\<close> is a parameter \<open>new\<close> of the operations that call it.
\<close>

record JDateRepository =
  JDEC :: real
  JDECP :: "nat \<Rightarrow> real"

text \<open>The calculator object: \<open>this.private.jdr\<close> is its only field.\<close>

record calculator =
  private_jdr :: JDateRepository

text \<open>
  A truncation array as \<open>calc\<close> and \<open>estimateMaxError\<close> receive it: the argument may
  be \<open>undefined\<close> (\<open>None\<close>), and so may each entry (\<open>None\<close>, also beyond the end of
  the array).
\<close>

type_synonym plan = "int option list option"

text \<open>\<open>xs[k]\<close> on a JavaScript array: \<open>undefined\<close> outside \<open>0 .. length - 1\<close>.\<close>

definition js_nth :: "'a list \<Rightarrow> int \<Rightarrow> 'a option" where
  "js_nth xs k = (if 0 \<le> k \<and> k < int (length xs) then Some (xs ! nat k) else None)"

text \<open>\<open>tNumsArray[i]\<close> for an array of possibly undefined entries.\<close>

definition entry :: "int option list \<Rightarrow> nat \<Rightarrow> int option" where
  "entry ts i = (if i < length ts then ts ! i else None)"

text \<open>
  The truncation count both \<open>calc\<close> and \<open>estimateMaxError\<close> compute for block \<open>i\<close>:
  \<^verbatim>\<open>tNumsArray != undefined && tNumsArray[i] != undefined
     ? Math.min(tNumsArray[i], dataArray[i].length) : dataArray[i].length\<close>
\<close>

definition truncation :: "plan \<Rightarrow> nat \<Rightarrow> int \<Rightarrow> int" where
  "truncation tNumsArray i len =
     (case tNumsArray of
        None \<Rightarrow> len
      | Some ts \<Rightarrow> (case entry ts i of None \<Rightarrow> len | Some t \<Rightarrow> min t len))"

subsection \<open>calc\<close>

text \<open>
  The inner loop \<open>for (j = 0; j < tNum; j++)\<close> of \<open>calc\<close>, run over the terms it visits,
  with the accumulator \<open>sum\<close> (written \<open>sm\<close>).
\<close>

fun calc_terms :: "real \<Rightarrow> real \<Rightarrow> real \<Rightarrow> real \<Rightarrow> block \<Rightarrow> real \<Rightarrow> real" where
  "calc_terms t1 t2 t3 t4 [] sm = sm"
| "calc_terms t1 t2 t3 t4 (d # ds) sm =
     (let A = phase0 d + phase1 d * t1 + phase2 d * t2 + phase3 d * t3 + phase4 d * t4
      in calc_terms t1 t2 t3 t4 ds (sm + amplitude d * cos A))"

text \<open>
  The value \<open>sum\<close> of block \<open>i\<close>: since \<open>tNum \<le> dataArray[i].length\<close>, the terms
  visited are the first \<open>tNum\<close> ones (none when \<open>tNum \<le> 0\<close>).
\<close>

definition block_sum :: "JDateRepository \<Rightarrow> plan \<Rightarrow> nat \<Rightarrow> block \<Rightarrow> real" where
  "block_sum jdr tNumsArray i blk =
     (let t1 = JDEC jdr;
          t2 = JDECP jdr 2 / 10000;
          t3 = JDECP jdr 3 / 100000000;
          t4 = JDECP jdr 4 / 100000000;
          tNum = truncation tNumsArray i (int (length blk))
      in calc_terms t1 t2 t3 t4 (take (nat tNum) blk) 0)"

text \<open>The outer loop \<open>for (i = 0; i < dataArray.length; i++)\<close> with the accumulator \<open>res\<close>.\<close>

fun calc_blocks :: "JDateRepository \<Rightarrow> plan \<Rightarrow> nat \<Rightarrow> series_model \<Rightarrow> real \<Rightarrow> real" where
  "calc_blocks jdr tNumsArray i [] res = res"
| "calc_blocks jdr tNumsArray i (blk # rest) res =
     calc_blocks jdr tNumsArray (i + 1) rest (res + block_sum jdr tNumsArray i blk * JDECP jdr i)"

definition calc :: "JDateRepository \<Rightarrow> series_model \<Rightarrow> plan \<Rightarrow> real" where
  "calc jdr dataArray tNumsArray = calc_blocks jdr tNumsArray 0 dataArray 0"

subsection \<open>estimateMaxError\<close>

text \<open>
  The loop of \<open>estimateMaxError\<close> with the accumulator \<open>accuracy\<close>.  \<open>if (!n) continue\<close>
  skips a block with count 0; \<open>dataArray[i][n-1][0]\<close> raises a \<open>TypeError\<close> when
  \<open>dataArray[i][n-1]\<close> is \<open>undefined\<close>, which a negative entry causes.
\<close>

fun estimate_blocks ::
  "JDateRepository \<Rightarrow> plan \<Rightarrow> nat \<Rightarrow> series_model \<Rightarrow> real \<Rightarrow> error + real" where
  "estimate_blocks jdr tNumsArray i [] accuracy = Inr accuracy"
| "estimate_blocks jdr tNumsArray i (blk # rest) accuracy =
     (let n = truncation tNumsArray i (int (length blk)) in
      if n = 0 then estimate_blocks jdr tNumsArray (i + 1) rest accuracy
      else
        (case js_nth blk (n - 1) of
           None \<Rightarrow> Inl TypeError
         | Some d \<Rightarrow>
             (let A = amplitude d
              in estimate_blocks jdr tNumsArray (i + 1) rest
                   (accuracy + sqrt (real_of_int n) * A * JDECP jdr i))))"

definition estimateMaxError :: "JDateRepository \<Rightarrow> series_model \<Rightarrow> plan \<Rightarrow> error + real" where
  "estimateMaxError jdr dataArray tNumsArray =
     (case estimate_blocks jdr tNumsArray 0 dataArray 0 of
        Inl e \<Rightarrow> Inl e
      | Inr accuracy \<Rightarrow> Inr (2 * accuracy))"

subsection \<open>makeTruncationNums\<close>

text \<open>The variables of \<open>makeTruncationNums\<close> that live across iterations of \<open>while(1)\<close>.\<close>

record loop_state =
  s_i :: nat
  s_item :: nat
  s_tNumsArray :: "int list"
  s_reductionsArray :: "real list"
  s_accuracysArray :: "real list"
  s_accuracysSum :: real
  s_maximumError :: real

text \<open>How one iteration ends: at the bottom of the body, at a \<open>break\<close>, or in an exception.\<close>

datatype outcome = Continue loop_state | Break loop_state | Throw error

text \<open>
  The scan for the largest recorded reduction: the first index holding the maximum wins,
  index 0 when no reduction is positive.
  \<^verbatim>\<open>let maxReduction = 0;
  for (var j = 0; j < T; j++)
    if (reductionsArray[j] > maxReduction) { maxReduction = reductionsArray[j]; nextItem = j; }\<close>
\<close>

definition scan_reductions :: "real list \<Rightarrow> nat \<Rightarrow> real \<times> nat" where
  "scan_reductions reductionsArray T =
     fold (\<lambda>j (maxReduction, nextItem).
             if reductionsArray ! j > maxReduction then (reductionsArray ! j, j)
             else (maxReduction, nextItem))
          [0..<T] (0, 0)"

definition select_next :: "real list \<Rightarrow> nat \<Rightarrow> nat" where
  "select_next reductionsArray T = snd (scan_reductions reductionsArray T)"

text \<open>
  One iteration of \<open>while(1)\<close> is modelled in four steps, each a run of consecutive
  statements of the body.  The three working arrays have length \<open>T\<close> and \<open>item < T\<close>
  whenever \<open>T > 0\<close> (lemma \<open>body_preserves\<close> below), so in a run of the function the
  indexed reads and writes stay in range.

  First step, the block this iteration works on:
  \<^verbatim>\<open>if (i < T) item = i % T;
  if (i === T) { item = 0; tNumsArray[0] ++; }\<close>
\<close>

definition choose_item :: "nat \<Rightarrow> loop_state \<Rightarrow> nat \<times> int list" where
  "choose_item T s =
     (let i = s_i s;
          item = (if i < T then i mod T else s_item s);
          item = (if i = T then 0 else item);
          tNumsArray = (if i = T then (s_tNumsArray s)[0 := s_tNumsArray s ! 0 + 1]
                        else s_tNumsArray s)
      in (item, tNumsArray))"

text \<open>
  Second step, the count \<open>tNum\<close> that is tried, rolled back when the block has no such
  term:
  \<^verbatim>\<open>let tNum = tNumsArray[item] + 1;
  if (dataArray[item][tNum - 1] === undefined) {
    reductionsArray[item] = 0; tNumsArray[item] --; tNum --;
  }\<close>
\<close>

definition next_term ::
  "block \<Rightarrow> nat \<Rightarrow> int list \<Rightarrow> real list \<Rightarrow> int list \<times> real list \<times> int" where
  "next_term blk item tNumsArray reductionsArray =
     (let tNum = tNumsArray ! item + 1 in
      if js_nth blk (tNum - 1) = None
      then (tNumsArray[item := tNumsArray ! item - 1], reductionsArray[item := 0], tNum - 1)
      else (tNumsArray, reductionsArray, tNum))"

text \<open>
  Third step, from \<open>let A = dataArray[item][tNum - 1][0]\<close> to
  \<open>accuracysArray[item] = accuracy\<close>, for the term \<open>d = dataArray[item][tNum - 1]\<close>:
  the bound of the block at the tried count, its change against the recorded one, and,
  once the seeding pass is over (\<open>i > T - 1\<close>), the choice of the next block, whose
  count is raised at once.  The result is the state after these statements and the
  local \<open>nextItem\<close>.
\<close>

definition record_term ::
  "JDateRepository \<Rightarrow> nat \<Rightarrow> loop_state \<Rightarrow> nat \<Rightarrow> int list \<Rightarrow> real list \<Rightarrow> int \<Rightarrow> series_term
     \<Rightarrow> loop_state \<times> nat" where
  "record_term jdr T s item tNumsArray reductionsArray tNum d =
     (let i = s_i s;
          nextItem = 0;
          A = amplitude d;
          accuracy = sqrt (real_of_int tNum) * A * JDECP jdr item;
          accuracysSum = (if i < T then s_accuracysSum s + accuracy else s_accuracysSum s);
          reduction = \<bar>if s_accuracysArray s ! item \<noteq> 0
                       then s_accuracysArray s ! item - accuracy else accuracy\<bar>;
          reductionsArray = reductionsArray[item := reduction];
          greedy = (int i > int T - 1);
          nextItem = (if greedy then select_next reductionsArray T else nextItem);
          tNumsArray = (if greedy then tNumsArray[nextItem := tNumsArray ! nextItem + 1]
                        else tNumsArray);
          accuracysSum = (if greedy then accuracysSum - (s_accuracysArray s ! item - accuracy)
                          else accuracysSum);
          accuracysArray = (s_accuracysArray s)[item := accuracy]
      in (\<lparr>s_i = i, s_item = item, s_tNumsArray = tNumsArray,
           s_reductionsArray = reductionsArray, s_accuracysArray = accuracysArray,
           s_accuracysSum = accuracysSum, s_maximumError = s_maximumError s\<rparr>,
          nextItem))"

text \<open>
  Fourth step, the two exits and the end of the body:
  \<^verbatim>\<open>if (i > T && Math.abs(accuracysSum) <= maximumError) {
    let trueMaxError = this.estimateMaxError(dataArray ,tNumsArray);
    if (trueMaxError > maximumError) {
      maximumError -= ( trueMaxError - maximumError) * 4 / 3;
    }
    break;
  }
  if (tNumsArray[T - 1] === dataArray[T - 1].length) break;
  item = nextItem;
  i++;\<close>
\<close>

definition check_exit :: "JDateRepository \<Rightarrow> series_model \<Rightarrow> loop_state \<Rightarrow> nat \<Rightarrow> outcome" where
  "check_exit jdr dataArray s nextItem =
     (let T = length dataArray in
      if s_i s > T \<and> \<bar>s_accuracysSum s\<bar> \<le> s_maximumError s then
        (case estimateMaxError jdr dataArray (Some (map Some (s_tNumsArray s))) of
           Inl e \<Rightarrow> Throw e
         | Inr trueMaxError \<Rightarrow>
             if trueMaxError > s_maximumError s
             then Break (s\<lparr>s_maximumError :=
                          s_maximumError s - (trueMaxError - s_maximumError s) * 4 / 3\<rparr>)
             else Break s)
      else if s_tNumsArray s ! (T - 1) = int (length (dataArray ! (T - 1))) then Break s
      else Continue (s\<lparr>s_item := nextItem, s_i := s_i s + 1\<rparr>))"

text \<open>
  The whole body.  \<open>dataArray[item][tNum - 1]\<close> raises a \<open>TypeError\<close> when
  \<open>dataArray[item]\<close> is \<open>undefined\<close>, which happens for \<open>T = 0\<close> only (there
  \<open>tNumsArray[0]++\<close> has stored \<open>NaN\<close> just before); \<open>dataArray[item][tNum - 1][0]\<close>
  raises it when the block has no term at \<open>tNum - 1\<close> even after the roll-back, which
  happens for an empty block.
\<close>

definition body :: "JDateRepository \<Rightarrow> series_model \<Rightarrow> loop_state \<Rightarrow> outcome" where
  "body jdr dataArray s =
     (let T = length dataArray;
          (item, tNumsArray) = choose_item T s
      in
      if \<not> item < T then Throw TypeError
      else
        let blk = dataArray ! item;
            (tNumsArray, reductionsArray, tNum) =
               next_term blk item tNumsArray (s_reductionsArray s)
        in
        case js_nth blk (tNum - 1) of
          None \<Rightarrow> Throw TypeError
        | Some d \<Rightarrow>
            let (s', nextItem) = record_term jdr T s item tNumsArray reductionsArray tNum d
            in check_exit jdr dataArray s' nextItem)"

text \<open>
  \<open>while(1)\<close> has no bound of its own: the loop is a partial function, \<open>None\<close> when it
  never leaves.  After a \<open>break\<close> the function returns \<open>tNumsArray\<close>.
\<close>

partial_function (option) loop ::
  "JDateRepository \<Rightarrow> series_model \<Rightarrow> loop_state \<Rightarrow> (error + int list) option" where
  "loop jdr dataArray s =
     (case body jdr dataArray s of
        Throw e \<Rightarrow> Some (Inl e)
      | Break s' \<Rightarrow> Some (Inr (s_tNumsArray s'))
      | Continue s' \<Rightarrow> loop jdr dataArray s')"

text \<open>The state before the first iteration: three arrays of \<open>T\<close> zeros, \<open>i = 0\<close>, \<open>item = 0\<close>.\<close>

definition init_state :: "series_model \<Rightarrow> real \<Rightarrow> loop_state" where
  "init_state dataArray maximumError =
     \<lparr>s_i = 0, s_item = 0,
      s_tNumsArray = replicate (length dataArray) 0,
      s_reductionsArray = replicate (length dataArray) 0,
      s_accuracysArray = replicate (length dataArray) 0,
      s_accuracysSum = 0, s_maximumError = maximumError\<rparr>"

definition makeTruncationNums ::
  "JDateRepository \<Rightarrow> series_model \<Rightarrow> real \<Rightarrow> (error + int list) option" where
  "makeTruncationNums jdr dataArray maximumError =
     (if maximumError < 0
      then Some (Inl (Error ''The param maximumError should be greater than 0.''))
      else loop jdr dataArray (init_state dataArray maximumError))"

subsection \<open>makeMeanTruncationNums\<close>

text \<open>
  The inner loop of \<open>makeMeanTruncationNums\<close>:
  \<^verbatim>\<open>for (var j = 0; j < tNumsArray.length; j++) {
    if (sumsArray[j] === undefined) sumsArray[j] = 0;
    sumsArray[j] += tNumsArray[j];
  }\<close>
  \<open>j\<close> runs upwards from 0, so an undefined \<open>sumsArray[j]\<close> is the slot just behind
  the end of \<open>sumsArray\<close>.
\<close>

function accumulate :: "int list \<Rightarrow> nat \<Rightarrow> int list \<Rightarrow> int list" where
  "accumulate tNumsArray j sumsArray =
     (if j < length tNumsArray then
        let sumsArray = (if j < length sumsArray then sumsArray else sumsArray @ [0])
        in accumulate tNumsArray (j + 1) (sumsArray[j := sumsArray ! j + tNumsArray ! j])
      else sumsArray)"
  by pat_completeness auto
termination
  by (relation "measure (\<lambda>(tNumsArray, j, sumsArray). length tNumsArray - j)") auto

text \<open>
  The sampling loop \<open>for (var i = 0; i < n; i++)\<close> with \<open>n = 100\<close>.  The assignment
  \<open>this.jdr = new JDateRepository(jd)\<close> goes through the setter, whose \<open>instanceof\<close>
  check holds by typing, and overwrites \<open>this.private.jdr\<close>: the calculator is threaded
  through and returned.  An exception of \<open>makeTruncationNums\<close> leaves the loop with the
  calculator as it is then; a run of \<open>makeTruncationNums\<close> that never returns makes
  the whole call never return (\<open>None\<close>).
\<close>

function makeMean_loop ::
  "(real \<Rightarrow> JDateRepository) \<Rightarrow> series_model \<Rightarrow> real \<Rightarrow> nat \<Rightarrow> calculator \<Rightarrow> int list
     \<Rightarrow> ((error + int list) \<times> calculator) option" where
  "makeMean_loop new dataArray maximumError i this sumsArray =
     (if i < 100 then
        let t = (3912458 - 260732) / 100;
            jd0 = 260732;
            jd = jd0 + real i * t;
            this = this\<lparr>private_jdr := new jd\<rparr>
        in
        case makeTruncationNums (private_jdr this) dataArray maximumError of
          None \<Rightarrow> None
        | Some (Inl e) \<Rightarrow> Some (Inl e, this)
        | Some (Inr tNumsArray) \<Rightarrow>
            makeMean_loop new dataArray maximumError (i + 1) this
              (accumulate tNumsArray 0 sumsArray)
      else Some (Inr sumsArray, this))"
  by pat_completeness auto
termination
  by (relation "measure (\<lambda>(new, dataArray, maximumError, i, this, sumsArray). 100 - i)") auto

text \<open>
  The second loop fills \<open>meanTNumsArray[i] = Math.ceil(sumsArray[i] / n)\<close> for every
  index of \<open>sumsArray\<close>.
\<close>

definition makeMeanTruncationNums ::
  "(real \<Rightarrow> JDateRepository) \<Rightarrow> calculator \<Rightarrow> series_model \<Rightarrow> real
     \<Rightarrow> ((error + int list) \<times> calculator) option" where
  "makeMeanTruncationNums new this dataArray maximumError =
     (case makeMean_loop new dataArray maximumError 0 this [] of
        None \<Rightarrow> None
      | Some (Inl e, this') \<Rightarrow> Some (Inl e, this')
      | Some (Inr sumsArray, this') \<Rightarrow>
          Some (Inr (map (\<lambda>s. \<lceil>real_of_int s / 100\<rceil>) sumsArray), this'))"

subsection \<open>makeSafeTruncationNums\<close>

text \<open>
  The loop \<open>for (var i = 0; i < 5; i++)\<close>.  The variable \<open>tNumsArray\<close> is declared
  without a value (\<open>None\<close>) and returned after the loop.
\<close>

function makeSafe_loop ::
  "(real \<Rightarrow> JDateRepository) \<Rightarrow> series_model \<Rightarrow> nat \<Rightarrow> calculator \<Rightarrow> int list option \<Rightarrow> real
     \<Rightarrow> ((error + int list option) \<times> calculator) option" where
  "makeSafe_loop new dataArray i this tNumsArray maximumError =
     (if i < 5 then
        case makeMeanTruncationNums new this dataArray maximumError of
          None \<Rightarrow> None
        | Some (Inl e, this') \<Rightarrow> Some (Inl e, this')
        | Some (Inr tNumsArray', this') \<Rightarrow>
            (case estimateMaxError (private_jdr this') dataArray (Some (map Some tNumsArray')) of
               Inl e \<Rightarrow> Some (Inl e, this')
             | Inr trueMaxError \<Rightarrow>
                 if trueMaxError > maximumError
                 then makeSafe_loop new dataArray (i + 1) this' (Some tNumsArray')
                        (maximumError / 2)
                 else Some (Inr (Some tNumsArray'), this'))
      else Some (Inr tNumsArray, this))"
  by pat_completeness auto
termination
  by (relation "measure (\<lambda>(new, dataArray, i, this, tNumsArray, maximumError). 5 - i)") auto

definition makeSafeTruncationNums ::
  "(real \<Rightarrow> JDateRepository) \<Rightarrow> calculator \<Rightarrow> series_model \<Rightarrow> real
     \<Rightarrow> ((error + int list option) \<times> calculator) option" where
  "makeSafeTruncationNums new this dataArray maximumError =
     makeSafe_loop new dataArray 0 this None maximumError"

section \<open>Specification-level notions\<close>

subsection \<open>The estimate as the specification words it\<close>

text \<open>
  Section 4.2 of the specification: the effective count \<open>n\<close> of block \<open>i\<close> is the
  minimum of \<open>plan[i]\<close> and the block's length, or the length when \<open>plan[i]\<close> is not
  specified; a block with \<open>n \<noteq> 0\<close> adds \<open>sqrt n * A * t\<^sup>i\<close>, where \<open>A\<close> is the amplitude
  of term \<open>n - 1\<close> and \<open>t\<^sup>i\<close> is what the time context returns as \<open>JDECP(i)\<close>; the
  estimate is twice the sum.
\<close>

definition retained :: "plan \<Rightarrow> nat \<Rightarrow> block \<Rightarrow> nat" where
  "retained p i blk =
     (case p of
        None \<Rightarrow> length blk
      | Some ts \<Rightarrow>
          if i < length ts then
            (case ts ! i of None \<Rightarrow> length blk | Some c \<Rightarrow> min (nat c) (length blk))
          else length blk)"

definition block_bound :: "JDateRepository \<Rightarrow> plan \<Rightarrow> nat \<Rightarrow> block \<Rightarrow> real" where
  "block_bound jdr p i blk =
     (let n = retained p i blk in
      if n = 0 then 0 else sqrt (real n) * amplitude (blk ! (n - 1)) * JDECP jdr i)"

definition estimate_spec :: "JDateRepository \<Rightarrow> series_model \<Rightarrow> plan \<Rightarrow> real" where
  "estimate_spec jdr model p = 2 * (\<Sum>i<length model. block_bound jdr p i (model ! i))"

text \<open>A truncation plan of the data model: no specified entry is negative.\<close>

definition nonneg_plan :: "plan \<Rightarrow> bool" where
  "nonneg_plan p =
     (case p of None \<Rightarrow> True
      | Some ts \<Rightarrow> list_all (\<lambda>e. case e of None \<Rightarrow> True | Some c \<Rightarrow> 0 \<le> c) ts)"

subsection \<open>The last sample of makeMeanTruncationNums\<close>

text \<open>The Julian date \<open>jd0 + i * t\<close> of the last sample, \<open>i = 99\<close>.\<close>

definition last_sample :: real where
  "last_sample = 260732 + 99 * ((3912458 - 260732) / 100)"

subsection \<open>Notions used to state the properties of calc and estimateMaxError\<close>

text \<open>The argument \<open>A\<close> of the cosine that \<open>calc\<close> computes for a term.\<close>

definition phase :: "JDateRepository \<Rightarrow> series_term \<Rightarrow> real" where
  "phase jdr d =
     phase0 d + phase1 d * JDEC jdr + phase2 d * (JDECP jdr 2 / 10000) +
     phase3 d * (JDECP jdr 3 / 100000000) + phase4 d * (JDECP jdr 4 / 100000000)"

text \<open>
  A block whose bounds \<open>sqrt (j + 1) * A\<^sub>j\<close> do not increase from one term to the next.
\<close>

definition decaying :: "block \<Rightarrow> bool" where
  "decaying blk =
     (\<forall>j. Suc j < length blk \<longrightarrow>
        sqrt (real (j + 2)) * amplitude (blk ! Suc j) \<le> sqrt (real (j + 1)) * amplitude (blk ! j))"

subsection \<open>Well-formed models and loop invariant\<close>

text \<open>Every block of the model has at least one term.\<close>

definition nonempty_blocks :: "series_model \<Rightarrow> bool" where
  "nonempty_blocks dataArray = list_all (\<lambda>blk. blk \<noteq> []) dataArray"

text \<open>
  The counts \<open>ts\<close> have one entry per block, each between 0 and the length of its
  block, and below that length for the blocks \<open>k\<close> that \<open>full\<close> does not name.
\<close>

definition counts_in :: "series_model \<Rightarrow> (nat \<Rightarrow> bool) \<Rightarrow> int list \<Rightarrow> bool" where
  "counts_in dataArray full ts =
     (length ts = length dataArray \<and>
      (\<forall>k<length dataArray.
         0 \<le> ts ! k \<and> ts ! k \<le> int (length (dataArray ! k)) \<and>
         (\<not> full k \<longrightarrow> ts ! k < int (length (dataArray ! k)))))"

text \<open>
  What holds at the head of every iteration: only the block chosen in the previous
  iteration can have all its terms counted, and only once the seeding pass is over.
\<close>

definition loop_inv :: "series_model \<Rightarrow> loop_state \<Rightarrow> bool" where
  "loop_inv dataArray s =
     (counts_in dataArray (\<lambda>k. k = s_item s \<and> length dataArray < s_i s) (s_tNumsArray s) \<and>
      length (s_reductionsArray s) = length dataArray \<and>
      length (s_accuracysArray s) = length dataArray \<and>
      (length dataArray < s_i s \<longrightarrow> s_item s < length dataArray))"

subsection \<open>The optimizer without the adjustment of the budget\<close>

text \<open>
  The same function with the statement
  \<open>if (trueMaxError > maximumError) { maximumError -= (trueMaxError - maximumError) * 4 / 3; }\<close>
  removed from the fourth step; the call of \<open>estimateMaxError\<close> before it stays.
\<close>

definition check_exit_plain ::
  "JDateRepository \<Rightarrow> series_model \<Rightarrow> loop_state \<Rightarrow> nat \<Rightarrow> outcome" where
  "check_exit_plain jdr dataArray s nextItem =
     (let T = length dataArray in
      if s_i s > T \<and> \<bar>s_accuracysSum s\<bar> \<le> s_maximumError s then
        (case estimateMaxError jdr dataArray (Some (map Some (s_tNumsArray s))) of
           Inl e \<Rightarrow> Throw e
         | Inr trueMaxError \<Rightarrow> Break s)
      else if s_tNumsArray s ! (T - 1) = int (length (dataArray ! (T - 1))) then Break s
      else Continue (s\<lparr>s_item := nextItem, s_i := s_i s + 1\<rparr>))"

definition body_plain :: "JDateRepository \<Rightarrow> series_model \<Rightarrow> loop_state \<Rightarrow> outcome" where
  "body_plain jdr dataArray s =
     (let T = length dataArray;
          (item, tNumsArray) = choose_item T s
      in
      if \<not> item < T then Throw TypeError
      else
        let blk = dataArray ! item;
            (tNumsArray, reductionsArray, tNum) =
               next_term blk item tNumsArray (s_reductionsArray s)
        in
        case js_nth blk (tNum - 1) of
          None \<Rightarrow> Throw TypeError
        | Some d \<Rightarrow>
            let (s', nextItem) = record_term jdr T s item tNumsArray reductionsArray tNum d
            in check_exit_plain jdr dataArray s' nextItem)"

partial_function (option) loop_plain ::
  "JDateRepository \<Rightarrow> series_model \<Rightarrow> loop_state \<Rightarrow> (error + int list) option" where
  "loop_plain jdr dataArray s =
     (case body_plain jdr dataArray s of
        Throw e \<Rightarrow> Some (Inl e)
      | Break s' \<Rightarrow> Some (Inr (s_tNumsArray s'))
      | Continue s' \<Rightarrow> loop_plain jdr dataArray s')"

definition makeTruncationNums_plain ::
  "JDateRepository \<Rightarrow> series_model \<Rightarrow> real \<Rightarrow> (error + int list) option" where
  "makeTruncationNums_plain jdr dataArray maximumError =
     (if maximumError < 0
      then Some (Inl (Error ''The param maximumError should be greater than 0.''))
      else loop_plain jdr dataArray (init_state dataArray maximumError))"

text \<open>Two ends of an iteration that the caller cannot tell apart.\<close>

fun same_plan :: "outcome \<Rightarrow> outcome \<Rightarrow> bool" where
  "same_plan (Continue a) (Continue b) = (a = b)"
| "same_plan (Break a) (Break b) = (s_tNumsArray a = s_tNumsArray b)"
| "same_plan (Throw e) (Throw e') = (e = e')"
| "same_plan _ _ = False"

subsection \<open>Concrete inputs\<close>

text \<open>A term with the given amplitude and phase polynomial 0.\<close>

definition tm :: "real \<Rightarrow> series_term" where
  "tm a = \<lparr>amplitude = a, phase0 = 0, phase1 = 0, phase2 = 0, phase3 = 0, phase4 = 0\<rparr>"

text \<open>A time context at \<open>t\<close> Julian centuries, whose \<open>JDECP(k)\<close> is \<open>t ^ k\<close>.\<close>

definition jdr_at :: "real \<Rightarrow> JDateRepository" where
  "jdr_at t = \<lparr>JDEC = t, JDECP = (\<lambda>k. t ^ k)\<rparr>"

text \<open>
  A constructor for \<open>new JDateRepository(jd)\<close>: Julian centuries from the epoch
  J2000.0 (\<open>jd = 2451545\<close>).
\<close>

definition new_jdr :: "real \<Rightarrow> JDateRepository" where
  "new_jdr jd = jdr_at ((jd - 2451545) / 36525)"

text \<open>The single block of three terms with amplitudes 10, 3 and 1.\<close>

definition scenario :: series_model where
  "scenario = [[tm 10, tm 3, tm 1]]"

text \<open>One block of two terms with amplitudes 10 and 9.\<close>

definition flat_pair :: series_model where
  "flat_pair = [[tm 10, tm 9]]"

text \<open>One block of four terms with amplitudes 10, 3, 1 and 1.\<close>

definition long_block :: series_model where
  "long_block = [[tm 10, tm 3, tm 1, tm 1]]"

text \<open>Two blocks of one term each, with amplitudes 10 and 5.\<close>

definition two_blocks :: series_model where
  "two_blocks = [[tm 10], [tm 5]]"

text \<open>
  The state in which the optimizer arrives on \<open>two_blocks\<close> at time 0 with budget 0,
  for the value \<open>n\<close> of \<open>i\<close>.
\<close>

definition stuck :: "nat \<Rightarrow> loop_state" where
  "stuck n = \<lparr>s_i = n, s_item = 0, s_tNumsArray = [1, 0], s_reductionsArray = [0, 0],
              s_accuracysArray = [10, 0], s_accuracysSum = 10, s_maximumError = 0\<rparr>"

text \<open>One block of one term with amplitude 1.\<close>

definition one_term :: series_model where
  "one_term = [[tm 1]]"

text \<open>A calculator whose time context is the epoch J2000.0.\<close>

definition calculator0 :: calculator where
  "calculator0 = \<lparr>private_jdr = new_jdr 2451545\<rparr>"

section \<open>Properties\<close>

subsection \<open>The error estimate\<close>

lemma truncation_retained:
  "nonneg_plan p \<Longrightarrow> truncation p i (int (length blk)) = int (retained p i blk)"
  by (auto simp: nonneg_plan_def truncation_def retained_def entry_def list_all_length
           split: option.splits)

lemma estimate_blocks_sum:
  "nonneg_plan p \<Longrightarrow>
   estimate_blocks jdr p i rest accuracy =
     Inr (accuracy + (\<Sum>k<length rest. block_bound jdr p (i + k) (rest ! k)))"
proof (induction rest arbitrary: i accuracy)
  case Nil
  then show ?case by simp
next
  case (Cons blk rest)
  have t: "truncation p i (int (length blk)) = int (retained p i blk)"
    using Cons.prems by (rule truncation_retained)
  have le: "retained p i blk \<le> length blk"
    by (auto simp: retained_def split: option.splits)
  have shift: "(\<Sum>k<length (blk # rest). block_bound jdr p (i + k) ((blk # rest) ! k)) =
      block_bound jdr p i blk + (\<Sum>k<length rest. block_bound jdr p (i + 1 + k) (rest ! k))"
    by (simp add: sum.lessThan_Suc_shift del: sum.lessThan_Suc)
  show ?case
  proof (cases "retained p i blk = 0")
    case True
    then show ?thesis
      using Cons.IH [OF Cons.prems, of "i + 1" accuracy] t
      by (simp only: shift) (simp add: block_bound_def)
  next
    case False
    then have "js_nth blk (int (retained p i blk) - 1) = Some (blk ! (retained p i blk - 1))"
      using le by (auto simp: js_nth_def nat_diff_distrib')
    then show ?thesis
      using Cons.IH [OF Cons.prems, of "i + 1"] t False
      by (simp only: shift) (simp add: block_bound_def Let_def add.assoc)
  qed
qed

lemma estimateMaxError_spec:
  "nonneg_plan p \<Longrightarrow> estimateMaxError jdr model p = Inr (estimate_spec jdr model p)"
  by (simp add: estimateMaxError_def estimate_spec_def estimate_blocks_sum)

subsection \<open>One iteration of the optimizer preserves the bounds on the counts\<close>

lemma counts_in_mono:
  "counts_in dataArray f ts \<Longrightarrow> (\<And>k. f k \<Longrightarrow> g k) \<Longrightarrow> counts_in dataArray g ts"
  by (auto simp: counts_in_def)

lemma scan_reductions_bound:
  "n \<le> T \<Longrightarrow> 0 < T \<Longrightarrow> snd (scan_reductions rs n) < T"
  unfolding scan_reductions_def
  by (induction n) (auto simp: case_prod_beta)

lemma select_next_less: "0 < T \<Longrightarrow> select_next rs T < T"
  by (simp add: select_next_def scan_reductions_bound)

lemma counts_in_update:
  assumes "counts_in dataArray f ts" "j < length dataArray"
    and "0 \<le> v" "v \<le> int (length (dataArray ! j))"
    and "\<not> g j \<Longrightarrow> v < int (length (dataArray ! j))"
    and "\<And>k. k \<noteq> j \<Longrightarrow> f k \<Longrightarrow> g k"
  shows "counts_in dataArray g (ts[j := v])"
  unfolding counts_in_def
proof (intro conjI allI impI)
  show "length (ts[j := v]) = length dataArray"
    using assms(1) by (simp add: counts_in_def)
next
  fix k assume k: "k < length dataArray"
  have old: "0 \<le> ts ! k" "ts ! k \<le> int (length (dataArray ! k))"
    "\<not> f k \<Longrightarrow> ts ! k < int (length (dataArray ! k))"
    using assms(1) k by (simp_all add: counts_in_def)
  have len: "length ts = length dataArray"
    using assms(1) by (simp add: counts_in_def)
  show "0 \<le> ts[j := v] ! k"
    using old(1) assms(3) k len by (cases "k = j") simp_all
  show "ts[j := v] ! k \<le> int (length (dataArray ! k))"
    using old(2) assms(4) k len by (cases "k = j") simp_all
  show "ts[j := v] ! k < int (length (dataArray ! k))" if "\<not> g k"
  proof (cases "k = j")
    case True
    then show ?thesis using that assms(5) k len by simp
  next
    case False
    then have "\<not> f k" using that assms(6) by blast
    then show ?thesis using old(3) False by simp
  qed
qed

lemma choose_item_ready:
  assumes inv: "loop_inv dataArray s" and T0: "0 < length dataArray"
    and ch: "choose_item (length dataArray) s = (item, ts)"
  shows "item < length dataArray \<and> counts_in dataArray (\<lambda>k. k = item) ts"
proof -
  have c: "counts_in dataArray (\<lambda>k. k = s_item s \<and> length dataArray < s_i s) (s_tNumsArray s)"
    using inv by (simp add: loop_inv_def)
  consider "s_i s < length dataArray" | "s_i s = length dataArray" | "length dataArray < s_i s"
    by linarith
  then show ?thesis
  proof cases
    case 1
    then have "item = s_i s" "ts = s_tNumsArray s"
      using ch by (auto simp: choose_item_def Let_def)
    then show ?thesis
      using 1 c by (auto elim: counts_in_mono)
  next
    case 2
    then have e: "item = 0" "ts = (s_tNumsArray s)[0 := s_tNumsArray s ! 0 + 1]"
      using ch by (auto simp: choose_item_def Let_def)
    have "0 \<le> s_tNumsArray s ! 0" "s_tNumsArray s ! 0 < int (length (dataArray ! 0))"
      using c T0 2 by (simp_all add: counts_in_def)
    then have "counts_in dataArray (\<lambda>k. k = 0) ((s_tNumsArray s)[0 := s_tNumsArray s ! 0 + 1])"
      using 2 by (intro counts_in_update [OF c T0]) auto
    then show ?thesis
      using e T0 by simp
  next
    case 3
    then have "item = s_item s" "ts = s_tNumsArray s"
      using ch by (auto simp: choose_item_def Let_def)
    then show ?thesis
      using 3 c inv by (auto simp: loop_inv_def elim: counts_in_mono)
  qed
qed

lemma next_term_below:
  assumes c: "counts_in dataArray (\<lambda>k. k = item) ts" and it: "item < length dataArray"
    and ne: "dataArray ! item \<noteq> []" and lrs: "length rs = length dataArray"
    and nt: "next_term (dataArray ! item) item ts rs = (ts', rs', tNum)"
  shows "counts_in dataArray (\<lambda>k. False) ts' \<and> length rs' = length dataArray \<and>
         (\<exists>d. js_nth (dataArray ! item) (tNum - 1) = Some d)"
proof -
  have b: "0 \<le> ts ! item" "ts ! item \<le> int (length (dataArray ! item))"
    using c it by (simp_all add: counts_in_def)
  have pos: "1 \<le> int (length (dataArray ! item))"
    using ne by (cases "dataArray ! item") simp_all
  show ?thesis
  proof (cases "ts ! item < int (length (dataArray ! item))")
    case True
    then have js: "js_nth (dataArray ! item) (ts ! item + 1 - 1) \<noteq> None"
      using b by (simp add: js_nth_def)
    then have e: "ts' = ts" "rs' = rs" "tNum = ts ! item + 1"
      using nt by (auto simp: next_term_def Let_def)
    have "counts_in dataArray (\<lambda>k. False) ts"
      unfolding counts_in_def
      using c True by (auto simp: counts_in_def)
    then show ?thesis
      using e js lrs by auto
  next
    case False
    then have full: "ts ! item = int (length (dataArray ! item))"
      using b by simp
    then have js: "js_nth (dataArray ! item) (ts ! item + 1 - 1) = None"
      by (simp add: js_nth_def)
    then have e: "ts' = ts[item := ts ! item - 1]" "rs' = rs[item := 0]" "tNum = ts ! item + 1 - 1"
      using nt by (auto simp: next_term_def Let_def)
    have "counts_in dataArray (\<lambda>k. False) (ts[item := ts ! item - 1])"
      using full pos by (intro counts_in_update [OF c it]) auto
    moreover have "js_nth (dataArray ! item) (ts ! item + 1 - 1 - 1) \<noteq> None"
      using full ne by (simp add: js_nth_def)
    ultimately show ?thesis
      using e lrs by auto
  qed
qed

lemma record_term_ready:
  assumes "counts_in dataArray (\<lambda>k. False) ts" "0 < length dataArray"
    and "length rs = length dataArray" "length (s_accuracysArray s) = length dataArray"
    and "record_term jdr (length dataArray) s item ts rs tNum d = (s', nextItem)"
  shows "counts_in dataArray (\<lambda>k. k = nextItem \<and> length dataArray \<le> s_i s) (s_tNumsArray s') \<and>
         nextItem < length dataArray \<and> s_i s' = s_i s \<and>
         length (s_reductionsArray s') = length dataArray \<and>
         length (s_accuracysArray s') = length dataArray"
proof (cases "s_i s < length dataArray")
  case True
  then show ?thesis
    using assms by (auto simp: record_term_def Let_def counts_in_def)
next
  case False
  then have g: "int (length dataArray) - 1 < int (s_i s)" by simp
  define nx where "nx = select_next
     (rs[item := \<bar>if s_accuracysArray s ! item \<noteq> 0
                   then s_accuracysArray s ! item - sqrt (real_of_int tNum) * amplitude d * JDECP jdr item
                   else sqrt (real_of_int tNum) * amplitude d * JDECP jdr item\<bar>]) (length dataArray)"
  have nx: "nx < length dataArray"
    using assms(2) by (simp add: nx_def select_next_less)
  have s': "s_tNumsArray s' = ts[nx := ts ! nx + 1]" "nextItem = nx" "s_i s' = s_i s"
    "length (s_reductionsArray s') = length dataArray"
    "length (s_accuracysArray s') = length dataArray"
    using assms(3-5) False g by (auto simp: record_term_def Let_def nx_def)
  show ?thesis
    using assms(1) nx False unfolding s'
    by (auto simp: counts_in_def nth_list_update)
qed

lemma estimate_no_throw:
  assumes "counts_in dataArray f ts"
  shows "estimateMaxError jdr dataArray (Some (map Some ts)) \<noteq> Inl e"
proof -
  have "nonneg_plan (Some (map Some ts))"
    using assms by (auto simp: nonneg_plan_def counts_in_def list_all_length)
  then show ?thesis
    by (simp add: estimateMaxError_spec)
qed

lemma check_exit_cases:
  assumes c: "counts_in dataArray (\<lambda>k. k = nextItem \<and> length dataArray \<le> s_i s) (s_tNumsArray s)"
    and nx: "nextItem < length dataArray"
    and l: "length (s_reductionsArray s) = length dataArray"
           "length (s_accuracysArray s) = length dataArray"
  shows "(\<exists>s'. check_exit jdr dataArray s nextItem = Continue s' \<and> loop_inv dataArray s') \<or>
         (\<exists>s'. check_exit jdr dataArray s nextItem = Break s' \<and>
               counts_in dataArray (\<lambda>k. True) (s_tNumsArray s'))"
proof -
  have all: "counts_in dataArray (\<lambda>k. True) (s_tNumsArray s)"
    using c by (rule counts_in_mono) simp
  have inv: "loop_inv dataArray (s\<lparr>s_item := nextItem, s_i := s_i s + 1\<rparr>)"
    using c nx l by (auto simp: loop_inv_def elim: counts_in_mono)
  show ?thesis
    using all inv estimate_no_throw [OF all, of jdr]
    by (auto simp: check_exit_def Let_def split: sum.splits)
qed

lemma body_preserves:
  assumes ne: "nonempty_blocks dataArray" and T0: "0 < length dataArray"
    and inv: "loop_inv dataArray s"
  shows "(\<exists>s'. body jdr dataArray s = Continue s' \<and> loop_inv dataArray s') \<or>
         (\<exists>s'. body jdr dataArray s = Break s' \<and>
               counts_in dataArray (\<lambda>k. True) (s_tNumsArray s'))"
proof -
  obtain item ts where ch: "choose_item (length dataArray) s = (item, ts)"
    by (cases "choose_item (length dataArray) s")
  have r: "item < length dataArray" "counts_in dataArray (\<lambda>k. k = item) ts"
    using choose_item_ready [OF inv T0 ch] by simp_all
  have ne_item: "dataArray ! item \<noteq> []"
    using ne r(1) by (simp add: nonempty_blocks_def list_all_length)
  have l: "length (s_reductionsArray s) = length dataArray"
          "length (s_accuracysArray s) = length dataArray"
    using inv by (simp_all add: loop_inv_def)
  obtain ts' rs' tNum where
    nt: "next_term (dataArray ! item) item ts (s_reductionsArray s) = (ts', rs', tNum)"
    by (cases "next_term (dataArray ! item) item ts (s_reductionsArray s)")
  from next_term_below [OF r(2) r(1) ne_item l(1) nt]
  obtain d where b: "counts_in dataArray (\<lambda>k. False) ts'" "length rs' = length dataArray"
    "js_nth (dataArray ! item) (tNum - 1) = Some d"
    by blast
  obtain s1 nextItem where
    rt: "record_term jdr (length dataArray) s item ts' rs' tNum d = (s1, nextItem)"
    by (cases "record_term jdr (length dataArray) s item ts' rs' tNum d")
  note rr = record_term_ready [OF b(1) T0 b(2) l(2) rt]
  have eq: "body jdr dataArray s = check_exit jdr dataArray s1 nextItem"
    using ch r(1) nt b(3) rt by (simp add: body_def Let_def)
  have "counts_in dataArray (\<lambda>k. k = nextItem \<and> length dataArray \<le> s_i s1) (s_tNumsArray s1)"
    using rr by simp
  then show ?thesis
    unfolding eq using rr by (intro check_exit_cases) simp_all
qed

lemma init_state_inv: "nonempty_blocks dataArray \<Longrightarrow> loop_inv dataArray (init_state dataArray e)"
  by (auto simp: loop_inv_def init_state_def counts_in_def nonempty_blocks_def list_all_length)

lemma loop_result:
  assumes run: "loop jdr dataArray s = Some r"
    and ne: "nonempty_blocks dataArray" and T0: "0 < length dataArray"
    and inv: "loop_inv dataArray s"
  shows "\<exists>ts. r = Inr ts \<and> counts_in dataArray (\<lambda>k. True) ts"
proof -
  have "nonempty_blocks dataArray \<longrightarrow> 0 < length dataArray \<longrightarrow> loop_inv dataArray s \<longrightarrow>
        (\<exists>ts. r = Inr ts \<and> counts_in dataArray (\<lambda>k. True) ts)"
  proof (rule loop.raw_induct [where P = "\<lambda>j d s r. nonempty_blocks d \<longrightarrow> 0 < length d \<longrightarrow>
        loop_inv d s \<longrightarrow> (\<exists>ts. r = Inr ts \<and> counts_in d (\<lambda>k. True) ts)", OF _ run], intro impI)
    fix loop' j d s r
    assume IH: "\<And>d s b y. loop' d s b = Some y \<Longrightarrow> nonempty_blocks s \<longrightarrow> 0 < length s \<longrightarrow>
        loop_inv s b \<longrightarrow> (\<exists>ts. y = Inr ts \<and> counts_in s (\<lambda>k. True) ts)"
      and step: "(case body j d s of Continue s' \<Rightarrow> loop' j d s'
                  | Break s' \<Rightarrow> Some (Inr (s_tNumsArray s')) | Throw e \<Rightarrow> Some (Inl e)) = Some r"
      and p: "nonempty_blocks d" "0 < length d" "loop_inv d s"
    from body_preserves [OF p, of j]
    show "\<exists>ts. r = Inr ts \<and> counts_in d (\<lambda>k. True) ts"
    proof (elim disjE exE conjE)
      fix s' assume "body j d s = Continue s'" "loop_inv d s'"
      then show ?thesis
        using IH [of j d s' r] step p by simp
    next
      fix s' assume "body j d s = Break s'" "counts_in d (\<lambda>k. True) (s_tNumsArray s')"
      then show ?thesis
        using step by auto
    qed
  qed
  then show ?thesis
    using ne T0 inv by simp
qed

subsection \<open>Running the optimizer on concrete inputs\<close>

lemmas stage_defs = body_def choose_item_def next_term_def record_term_def check_exit_def
  Let_def js_nth_def

lemma loop_continue: "body jdr dataArray s = Continue s' \<Longrightarrow> loop jdr dataArray s = loop jdr dataArray s'"
  by (subst loop.simps) simp

lemma loop_break:
  "body jdr dataArray s = Break s' \<Longrightarrow> loop jdr dataArray s = Some (Inr (s_tNumsArray s'))"
  by (subst loop.simps) simp

lemma loop_throw: "body jdr dataArray s = Throw e \<Longrightarrow> loop jdr dataArray s = Some (Inl e)"
  by (subst loop.simps) simp

lemma select_next_single: "select_next [r] (Suc 0) = 0"
  by (simp add: select_next_def scan_reductions_def)

lemma sqrt2_lt2: "sqrt 2 < 2" using real_sqrt_less_mono[of 2 4] by simp
lemma sqrt3_gt1: "1 < sqrt 3" using real_sqrt_less_mono[of 1 3] by simp
lemma sqrt3_le2: "sqrt 3 \<le> 2" using real_sqrt_le_mono[of 3 4] by simp

lemma check_exit_breaks:
  assumes "counts_in dataArray (\<lambda>k. True) (s_tNumsArray s)"
    and "s_tNumsArray s ! (length dataArray - 1) = int (length (dataArray ! (length dataArray - 1)))"
  shows "\<exists>s'. check_exit jdr dataArray s nextItem = Break s' \<and> s_tNumsArray s' = s_tNumsArray s"
  using assms(2) estimate_no_throw [OF assms(1), of jdr]
  by (auto simp: check_exit_def Let_def split: sum.splits)

lemma scenario_step0:
  "body jdr scenario (init_state scenario e) =
     Continue \<lparr>s_i = 1, s_item = 0, s_tNumsArray = [0],
               s_reductionsArray = [\<bar>10 * JDECP jdr 0\<bar>], s_accuracysArray = [10 * JDECP jdr 0],
               s_accuracysSum = 10 * JDECP jdr 0, s_maximumError = e\<rparr>"
  by (simp add: stage_defs scenario_def init_state_def tm_def)

lemma scenario_step1:
  "\<exists>r. body jdr scenario \<lparr>s_i = 1, s_item = 0, s_tNumsArray = [0],
               s_reductionsArray = [\<bar>10 * JDECP jdr 0\<bar>], s_accuracysArray = [10 * JDECP jdr 0],
               s_accuracysSum = 10 * JDECP jdr 0, s_maximumError = e\<rparr> =
     Continue \<lparr>s_i = 2, s_item = 0, s_tNumsArray = [2],
               s_reductionsArray = [r], s_accuracysArray = [sqrt 2 * 3 * JDECP jdr 0],
               s_accuracysSum = sqrt 2 * 3 * JDECP jdr 0, s_maximumError = e\<rparr>"
  by (simp add: stage_defs scenario_def tm_def select_next_single)


lemma scenario_step2:
  "\<exists>s'. body jdr scenario \<lparr>s_i = 2, s_item = 0, s_tNumsArray = [2],
               s_reductionsArray = [r], s_accuracysArray = [a],
               s_accuracysSum = a, s_maximumError = e\<rparr> = Break s' \<and> s_tNumsArray s' = [3]"
proof -
  let ?s = "\<lparr>s_i = 2, s_item = 0, s_tNumsArray = [2],
               s_reductionsArray = [r], s_accuracysArray = [a],
               s_accuracysSum = a, s_maximumError = e\<rparr>"
  obtain s1 where eq: "body jdr scenario ?s = check_exit jdr scenario s1 0"
    and ts: "s_tNumsArray s1 = [3]"
    by (simp add: body_def choose_item_def next_term_def record_term_def Let_def js_nth_def
          scenario_def tm_def select_next_single)
  have "counts_in scenario (\<lambda>k. True) (s_tNumsArray s1)"
    by (simp add: ts counts_in_def scenario_def)
  moreover have "s_tNumsArray s1 ! (length scenario - 1) =
      int (length (scenario ! (length scenario - 1)))"
    by (simp add: ts scenario_def)
  ultimately show ?thesis
    unfolding eq ts [symmetric] by (rule check_exit_breaks)
qed

lemma scenario_run:
  assumes "0 \<le> e"
  shows "makeTruncationNums jdr scenario e = Some (Inr [3])"
proof -
  obtain r where s1: "body jdr scenario \<lparr>s_i = 1, s_item = 0, s_tNumsArray = [0],
               s_reductionsArray = [\<bar>10 * JDECP jdr 0\<bar>], s_accuracysArray = [10 * JDECP jdr 0],
               s_accuracysSum = 10 * JDECP jdr 0, s_maximumError = e\<rparr> =
     Continue \<lparr>s_i = 2, s_item = 0, s_tNumsArray = [2],
               s_reductionsArray = [r], s_accuracysArray = [sqrt 2 * 3 * JDECP jdr 0],
               s_accuracysSum = sqrt 2 * 3 * JDECP jdr 0, s_maximumError = e\<rparr>"
    using scenario_step1 by blast
  obtain s' where s2: "body jdr scenario \<lparr>s_i = 2, s_item = 0, s_tNumsArray = [2],
               s_reductionsArray = [r], s_accuracysArray = [sqrt 2 * 3 * JDECP jdr 0],
               s_accuracysSum = sqrt 2 * 3 * JDECP jdr 0, s_maximumError = e\<rparr> = Break s'"
    and ts: "s_tNumsArray s' = [3]"
    using scenario_step2 by blast
  have "loop jdr scenario (init_state scenario e) = Some (Inr [3])"
    by (simp only: loop_continue [OF scenario_step0] loop_continue [OF s1] loop_break [OF s2] ts)
  then show ?thesis
    using assms by (simp add: makeTruncationNums_def)
qed

subsection \<open>The adjustment of the budget\<close>

lemma check_exit_same_plan:
  "same_plan (check_exit jdr dataArray s nextItem) (check_exit_plain jdr dataArray s nextItem)"
  by (simp add: check_exit_def check_exit_plain_def Let_def split: sum.splits)

lemma body_same_plan: "same_plan (body jdr dataArray s) (body_plain jdr dataArray s)"
  by (simp add: body_def body_plain_def Let_def check_exit_same_plan
           split: prod.splits option.splits)

lemma loop_le_plain:
  assumes "loop jdr dataArray s = Some r"
  shows "loop_plain jdr dataArray s = Some r"
proof (rule loop.raw_induct [where P = "\<lambda>j d s r. loop_plain j d s = Some r", OF _ assms])
  fix loop' j d s r
  assume IH: "\<And>d s b y. loop' d s b = Some y \<Longrightarrow> loop_plain d s b = Some y"
    and step: "(case body j d s of Continue s' \<Rightarrow> loop' j d s'
                | Break s' \<Rightarrow> Some (Inr (s_tNumsArray s')) | Throw e \<Rightarrow> Some (Inl e)) = Some r"
  show "loop_plain j d s = Some r"
    using body_same_plan [of j d s] step IH
    by (subst loop_plain.simps)
       (cases "body j d s"; cases "body_plain j d s"; simp)
qed

lemma plain_le_loop:
  assumes "loop_plain jdr dataArray s = Some r"
  shows "loop jdr dataArray s = Some r"
proof (rule loop_plain.raw_induct [where P = "\<lambda>j d s r. loop j d s = Some r", OF _ assms])
  fix loop' j d s r
  assume IH: "\<And>d s b y. loop' d s b = Some y \<Longrightarrow> loop d s b = Some y"
    and step: "(case body_plain j d s of Continue s' \<Rightarrow> loop' j d s'
                | Break s' \<Rightarrow> Some (Inr (s_tNumsArray s')) | Throw e \<Rightarrow> Some (Inl e)) = Some r"
  show "loop j d s = Some r"
    using body_same_plan [of j d s] step IH
    by (subst loop.simps)
       (cases "body j d s"; cases "body_plain j d s"; simp)
qed

lemma loop_plain_eq: "loop_plain jdr dataArray s = loop jdr dataArray s"
proof (cases "loop jdr dataArray s")
  case None
  then show ?thesis
    using plain_le_loop [of jdr dataArray s] by (cases "loop_plain jdr dataArray s") simp_all
next
  case (Some r)
  then show ?thesis
    using loop_le_plain by simp
qed

subsection \<open>Sums over the blocks\<close>

lemma calc_terms_sum:
  "calc_terms t1 t2 t3 t4 ds sm =
     sm + (\<Sum>d\<leftarrow>ds. amplitude d *
             cos (phase0 d + phase1 d * t1 + phase2 d * t2 + phase3 d * t3 + phase4 d * t4))"
  by (induction ds arbitrary: sm) (simp_all add: Let_def)

lemma calc_blocks_sum:
  "calc_blocks jdr p i rest res =
     res + (\<Sum>k<length rest. block_sum jdr p (i + k) (rest ! k) * JDECP jdr (i + k))"
proof (induction rest arbitrary: i res)
  case Nil
  then show ?case by simp
next
  case (Cons blk rest)
  have shift: "(\<Sum>k<length (blk # rest). block_sum jdr p (i + k) ((blk # rest) ! k) * JDECP jdr (i + k)) =
      block_sum jdr p i blk * JDECP jdr i +
      (\<Sum>k<length rest. block_sum jdr p (i + 1 + k) (rest ! k) * JDECP jdr (i + 1 + k))"
    by (simp add: sum.lessThan_Suc_shift del: sum.lessThan_Suc)
  show ?case
    using Cons.IH [of "i + 1"] by (simp only: shift) simp
qed

lemma block_sum_zero: "i < length ts \<Longrightarrow> block_sum jdr (Some (ts[i := Some 0])) i blk = 0"
  by (simp add: block_sum_def truncation_def entry_def)

lemma block_sum_undefined:
  "i < length ts \<Longrightarrow>
   block_sum jdr (Some (ts[i := None])) i blk = (\<Sum>d\<leftarrow>blk. amplitude d * cos (phase jdr d))"
  by (simp add: block_sum_def truncation_def entry_def calc_terms_sum phase_def)

lemma block_sum_other:
  "k \<noteq> i \<Longrightarrow> block_sum jdr (Some (ts[i := x])) k blk = block_sum jdr (Some ts) k blk"
  by (simp add: block_sum_def truncation_def entry_def)

lemma sum_differs_at:
  fixes f g :: "nat \<Rightarrow> real"
  assumes "i < n" and "\<And>k. k < n \<Longrightarrow> k \<noteq> i \<Longrightarrow> f k = g k"
  shows "(\<Sum>k<n. f k) = (\<Sum>k<n. g k) + (f i - g i)"
proof -
  have "(\<Sum>k<n. f k) = f i + (\<Sum>k\<in>{..<n} - {i}. f k)"
    using assms(1) by (simp add: sum.remove)
  moreover have "(\<Sum>k<n. g k) = g i + (\<Sum>k\<in>{..<n} - {i}. g k)"
    using assms(1) by (simp add: sum.remove)
  moreover have "(\<Sum>k\<in>{..<n} - {i}. f k) = (\<Sum>k\<in>{..<n} - {i}. g k)"
    using assms(2) by (intro sum.cong) auto
  ultimately show ?thesis by simp
qed

lemma calc_zero_vs_undefined:
  assumes "i < length dataArray" "i < length ts"
  shows "calc jdr dataArray (Some (ts[i := None])) =
         calc jdr dataArray (Some (ts[i := Some 0])) +
         (\<Sum>d\<leftarrow>dataArray ! i. amplitude d * cos (phase jdr d)) * JDECP jdr i"
proof -
  let ?f = "\<lambda>p k. block_sum jdr (Some p) k (dataArray ! k) * JDECP jdr k"
  have "(\<Sum>k<length dataArray. ?f (ts[i := None]) k) =
        (\<Sum>k<length dataArray. ?f (ts[i := Some 0]) k) +
        (?f (ts[i := None]) i - ?f (ts[i := Some 0]) i)"
    using assms(1) by (intro sum_differs_at) (simp_all add: block_sum_other)
  then show ?thesis
    using assms(2) by (simp add: calc_def calc_blocks_sum block_sum_zero block_sum_undefined)
qed


subsection \<open>When the estimate does not grow with a count\<close>

lemma decaying_chain:
  assumes "decaying blk" "a \<le> b" "Suc b \<le> length blk"
  shows "sqrt (real (Suc b)) * amplitude (blk ! b) \<le> sqrt (real (Suc a)) * amplitude (blk ! a)"
  using assms(2,3)
proof (induction b)
  case 0
  then show ?case by simp
next
  case (Suc b)
  show ?case
  proof (cases "a = Suc b")
    case True
    then show ?thesis by simp
  next
    case False
    then have "a \<le> b" using Suc.prems(1) by simp
    then have IH: "sqrt (real (Suc b)) * amplitude (blk ! b) \<le> sqrt (real (Suc a)) * amplitude (blk ! a)"
      using Suc.IH Suc.prems(2) by simp
    have "sqrt (real (b + 2)) * amplitude (blk ! Suc b) \<le> sqrt (real (b + 1)) * amplitude (blk ! b)"
      using assms(1) Suc.prems(2) by (simp add: decaying_def)
    then show ?thesis
      using IH by simp
  qed
qed

lemma block_bound_other:
  "k \<noteq> i \<Longrightarrow> block_bound jdr (Some (ts[i := x])) k blk = block_bound jdr (Some ts) k blk"
  by (simp add: block_bound_def retained_def)

lemma estimate_monotone:
  assumes i: "i < length dataArray" "i < length ts"
    and wf: "nonneg_plan (Some ts)"
    and n: "ts ! i = Some n" "1 \<le> n" "n \<le> n'" "n' \<le> int (length (dataArray ! i))"
    and w: "0 \<le> JDECP jdr i"
    and dec: "decaying (dataArray ! i)"
  shows "\<exists>e e'. estimateMaxError jdr dataArray (Some ts) = Inr e \<and>
                estimateMaxError jdr dataArray (Some (ts[i := Some n'])) = Inr e' \<and> e' \<le> e"
proof -
  let ?blk = "dataArray ! i"
  let ?ts' = "ts[i := Some n']"
  have wf': "nonneg_plan (Some ?ts')"
    using wf n i by (auto simp: nonneg_plan_def list_all_length nth_list_update
                       split: option.splits if_splits)
  have r: "retained (Some ts) i ?blk = nat n" "retained (Some ?ts') i ?blk = nat n'"
    using i n by (simp_all add: retained_def)
  have "sqrt (real (Suc (nat n' - 1))) * amplitude (?blk ! (nat n' - 1)) \<le>
        sqrt (real (Suc (nat n - 1))) * amplitude (?blk ! (nat n - 1))"
    using n by (intro decaying_chain [OF dec]) auto
  then have "sqrt (real (nat n')) * amplitude (?blk ! (nat n' - 1)) * JDECP jdr i \<le>
        sqrt (real (nat n)) * amplitude (?blk ! (nat n - 1)) * JDECP jdr i"
    using n w by (intro mult_right_mono) simp_all
  then have le: "block_bound jdr (Some ?ts') i ?blk \<le> block_bound jdr (Some ts) i ?blk"
    using n by (simp add: block_bound_def r)
  have "(\<Sum>k<length dataArray. block_bound jdr (Some ?ts') k (dataArray ! k)) =
        (\<Sum>k<length dataArray. block_bound jdr (Some ts) k (dataArray ! k)) +
        (block_bound jdr (Some ?ts') i ?blk - block_bound jdr (Some ts) i ?blk)"
    using i(1) by (intro sum_differs_at) (simp_all add: block_bound_other)
  then have "estimate_spec jdr dataArray (Some ?ts') \<le> estimate_spec jdr dataArray (Some ts)"
    using le by (simp add: estimate_spec_def)
  then show ?thesis
    by (simp add: estimateMaxError_spec [OF wf] estimateMaxError_spec [OF wf'])
qed

lemma sqrt2_gt1: "1 < sqrt 2" using real_sqrt_less_mono[of 1 2] by simp

lemma decaying_scenario: "decaying (scenario ! 0)"
  unfolding decaying_def
proof (intro allI impI)
  fix j assume "Suc j < length (scenario ! 0)"
  then consider "j = 0" | "j = 1"
    by (auto simp: scenario_def less_Suc_eq)
  then show "sqrt (real (j + 2)) * amplitude (scenario ! 0 ! Suc j) \<le>
             sqrt (real (j + 1)) * amplitude (scenario ! 0 ! j)"
  proof cases
    case 1
    then show ?thesis using sqrt2_lt2 by (simp add: scenario_def tm_def)
  next
    case 2
    have "sqrt 3 \<le> sqrt 2 * 3" using sqrt3_le2 sqrt2_gt1 by linarith
    then show ?thesis using 2 by (simp add: scenario_def tm_def)
  qed
qed

subsection \<open>A run that ends above the budget\<close>

lemma long_block_step0:
  "body (jdr_at 0) long_block (init_state long_block 2) =
     Continue \<lparr>s_i = 1, s_item = 0, s_tNumsArray = [0],
               s_reductionsArray = [10], s_accuracysArray = [10],
               s_accuracysSum = 10, s_maximumError = 2\<rparr>"
  by (simp add: stage_defs long_block_def init_state_def tm_def jdr_at_def)

lemma long_block_step1:
  "body (jdr_at 0) long_block \<lparr>s_i = 1, s_item = 0, s_tNumsArray = [0],
               s_reductionsArray = [10], s_accuracysArray = [10],
               s_accuracysSum = 10, s_maximumError = 2\<rparr> =
     Continue \<lparr>s_i = 2, s_item = 0, s_tNumsArray = [2],
               s_reductionsArray = [\<bar>10 - sqrt 2 * 3\<bar>], s_accuracysArray = [sqrt 2 * 3],
               s_accuracysSum = sqrt 2 * 3, s_maximumError = 2\<rparr>"
  by (simp add: stage_defs long_block_def tm_def jdr_at_def select_next_single)

lemma long_block_estimate:
  "estimateMaxError (jdr_at 0) long_block (Some [Some 3]) = Inr (2 * sqrt 3)"
  by (simp add: estimateMaxError_def js_nth_def truncation_def entry_def long_block_def tm_def
        jdr_at_def)

lemma long_block_step2:
  "\<exists>s'. body (jdr_at 0) long_block \<lparr>s_i = 2, s_item = 0, s_tNumsArray = [2],
               s_reductionsArray = [\<bar>10 - sqrt 2 * 3\<bar>], s_accuracysArray = [sqrt 2 * 3],
               s_accuracysSum = sqrt 2 * 3, s_maximumError = 2\<rparr> = Break s' \<and>
        s_tNumsArray s' = [3]"
proof -
  let ?s = "\<lparr>s_i = 2, s_item = 0, s_tNumsArray = [2],
               s_reductionsArray = [\<bar>10 - sqrt 2 * 3\<bar>], s_accuracysArray = [sqrt 2 * 3],
               s_accuracysSum = sqrt 2 * 3, s_maximumError = 2\<rparr>"
  obtain s1 where eq: "body (jdr_at 0) long_block ?s = check_exit (jdr_at 0) long_block s1 0"
    and s1: "s_tNumsArray s1 = [3]" "s_accuracysSum s1 = sqrt 3" "s_i s1 = 2"
      "s_maximumError s1 = 2"
    by (simp add: body_def choose_item_def next_term_def record_term_def Let_def js_nth_def
          long_block_def tm_def jdr_at_def select_next_single)
  have "length long_block = 1"
    by (simp add: long_block_def)
  then show ?thesis
    unfolding eq using sqrt3_le2 sqrt3_gt1
    by (simp add: check_exit_def s1 long_block_estimate)
qed

lemma long_block_run: "makeTruncationNums (jdr_at 0) long_block 2 = Some (Inr [3])"
proof -
  obtain s' where s2: "body (jdr_at 0) long_block \<lparr>s_i = 2, s_item = 0, s_tNumsArray = [2],
               s_reductionsArray = [\<bar>10 - sqrt 2 * 3\<bar>], s_accuracysArray = [sqrt 2 * 3],
               s_accuracysSum = sqrt 2 * 3, s_maximumError = 2\<rparr> = Break s'"
    and ts: "s_tNumsArray s' = [3]"
    using long_block_step2 by blast
  have "loop (jdr_at 0) long_block (init_state long_block 2) = Some (Inr [3])"
    by (simp only: loop_continue [OF long_block_step0] loop_continue [OF long_block_step1]
          loop_break [OF s2] ts)
  then show ?thesis
    by (simp add: makeTruncationNums_def)
qed

subsection \<open>A run that never ends\<close>

lemma select_next_zeros: "select_next [0, 0] (Suc (Suc 0)) = 0"
  by (simp add: select_next_def scan_reductions_def upt_rec)

lemma two_blocks_step0:
  "body (jdr_at 0) two_blocks (init_state two_blocks 0) =
     Continue \<lparr>s_i = 1, s_item = 0, s_tNumsArray = [0, 0],
               s_reductionsArray = [10, 0], s_accuracysArray = [10, 0],
               s_accuracysSum = 10, s_maximumError = 0\<rparr>"
  by (simp add: stage_defs two_blocks_def init_state_def tm_def jdr_at_def)

lemma two_blocks_step1:
  "body (jdr_at 0) two_blocks \<lparr>s_i = 1, s_item = 0, s_tNumsArray = [0, 0],
               s_reductionsArray = [10, 0], s_accuracysArray = [10, 0],
               s_accuracysSum = 10, s_maximumError = 0\<rparr> =
     Continue \<lparr>s_i = 2, s_item = 0, s_tNumsArray = [0, 0],
               s_reductionsArray = [10, 0], s_accuracysArray = [10, 0],
               s_accuracysSum = 10, s_maximumError = 0\<rparr>"
  by (simp add: stage_defs two_blocks_def tm_def jdr_at_def)

lemma two_blocks_step2:
  "body (jdr_at 0) two_blocks \<lparr>s_i = 2, s_item = 0, s_tNumsArray = [0, 0],
               s_reductionsArray = [10, 0], s_accuracysArray = [10, 0],
               s_accuracysSum = 10, s_maximumError = 0\<rparr> = Continue (stuck 3)"
  by (simp add: stage_defs two_blocks_def tm_def jdr_at_def select_next_zeros stuck_def)

lemma stuck_step: "2 < n \<Longrightarrow> body (jdr_at 0) two_blocks (stuck n) = Continue (stuck (Suc n))"
  by (simp add: stage_defs two_blocks_def tm_def jdr_at_def select_next_zeros stuck_def)

lemma stuck_forever:
  assumes "loop jdr dataArray s = Some r"
  shows "\<not> (jdr = jdr_at 0 \<and> dataArray = two_blocks \<and> (\<exists>n>2. s = stuck n))"
proof (rule loop.raw_induct [where P = "\<lambda>j d s r. \<not> (j = jdr_at 0 \<and> d = two_blocks \<and>
    (\<exists>n>2. s = stuck n))", OF _ assms])
  fix loop' j d s r
  assume IH: "\<And>d s b y. loop' d s b = Some y \<Longrightarrow>
      \<not> (d = jdr_at 0 \<and> s = two_blocks \<and> (\<exists>n>2. b = stuck n))"
    and step: "(case body j d s of Continue s' \<Rightarrow> loop' j d s'
                | Break s' \<Rightarrow> Some (Inr (s_tNumsArray s')) | Throw e \<Rightarrow> Some (Inl e)) = Some r"
  show "\<not> (j = jdr_at 0 \<and> d = two_blocks \<and> (\<exists>n>2. s = stuck n))"
  proof
    assume "j = jdr_at 0 \<and> d = two_blocks \<and> (\<exists>n>2. s = stuck n)"
    then obtain n where n: "j = jdr_at 0" "d = two_blocks" "2 < n" "s = stuck n"
      by blast
    then have "loop' (jdr_at 0) two_blocks (stuck (Suc n)) = Some r"
      using step by (simp add: stuck_step)
    moreover have "\<exists>m>2. stuck (Suc n) = stuck m"
      using n(3) by (intro exI [of _ "Suc n"]) simp
    ultimately show False
      using IH [of "jdr_at 0" two_blocks "stuck (Suc n)" r] by simp
  qed
qed

lemma two_blocks_diverges: "makeTruncationNums (jdr_at 0) two_blocks 0 = None"
proof -
  have "loop (jdr_at 0) two_blocks (stuck 3) = None"
    using stuck_forever [of "jdr_at 0" two_blocks "stuck 3"]
    by (cases "loop (jdr_at 0) two_blocks (stuck 3)") auto
  then have "loop (jdr_at 0) two_blocks (init_state two_blocks 0) = None"
    by (simp only: loop_continue [OF two_blocks_step0] loop_continue [OF two_blocks_step1]
          loop_continue [OF two_blocks_step2])
  then show ?thesis
    by (simp add: makeTruncationNums_def)
qed

subsection \<open>The sampling loop and the retry loop\<close>

lemma single_step0:
  "body jdr [[d]] (init_state [[d]] e) =
     Continue \<lparr>s_i = 1, s_item = 0, s_tNumsArray = [0],
               s_reductionsArray = [\<bar>amplitude d * JDECP jdr 0\<bar>],
               s_accuracysArray = [amplitude d * JDECP jdr 0],
               s_accuracysSum = amplitude d * JDECP jdr 0, s_maximumError = e\<rparr>"
  by (simp add: stage_defs init_state_def)

lemma single_step1:
  "\<exists>s'. body jdr [[d]] \<lparr>s_i = 1, s_item = 0, s_tNumsArray = [0],
               s_reductionsArray = [r], s_accuracysArray = [a],
               s_accuracysSum = a, s_maximumError = e\<rparr> = Break s' \<and> s_tNumsArray s' = [1]"
proof -
  let ?s = "\<lparr>s_i = 1, s_item = 0, s_tNumsArray = [0],
               s_reductionsArray = [r], s_accuracysArray = [a],
               s_accuracysSum = a, s_maximumError = e\<rparr>"
  obtain s1 where eq: "body jdr [[d]] ?s = check_exit jdr [[d]] s1 0"
    and ts: "s_tNumsArray s1 = [1]"
    by (simp add: body_def choose_item_def next_term_def record_term_def Let_def js_nth_def
          select_next_single)
  have "counts_in [[d]] (\<lambda>k. True) (s_tNumsArray s1)"
    by (simp add: ts counts_in_def)
  moreover have "s_tNumsArray s1 ! (length [[d]] - 1) = int (length ([[d]] ! (length [[d]] - 1)))"
    by (simp add: ts)
  ultimately show ?thesis
    unfolding eq ts [symmetric] by (rule check_exit_breaks)
qed

lemma single_run:
  assumes "0 \<le> e"
  shows "makeTruncationNums jdr [[d]] e = Some (Inr [1])"
proof -
  obtain s' where s1: "body jdr [[d]] \<lparr>s_i = 1, s_item = 0, s_tNumsArray = [0],
               s_reductionsArray = [\<bar>amplitude d * JDECP jdr 0\<bar>],
               s_accuracysArray = [amplitude d * JDECP jdr 0],
               s_accuracysSum = amplitude d * JDECP jdr 0, s_maximumError = e\<rparr> = Break s'"
    and ts: "s_tNumsArray s' = [1]"
    using single_step1 by blast
  have "loop jdr [[d]] (init_state [[d]] e) = Some (Inr [1])"
    by (simp only: loop_continue [OF single_step0] loop_break [OF s1] ts)
  then show ?thesis
    using assms by (simp add: makeTruncationNums_def)
qed

declare accumulate.simps [simp del] makeMean_loop.simps [simp del] makeSafe_loop.simps [simp del]

lemma calculator_update_eq:
  fixes this this' :: calculator
  shows "this\<lparr>private_jdr := x\<rparr> = this'\<lparr>private_jdr := x\<rparr>"
  by (cases this, cases this') simp

lemma makeMean_loop_independent:
  fixes this this' :: calculator
  assumes "i < 100"
  shows "makeMean_loop new dataArray e i this sumsArray =
         makeMean_loop new dataArray e i this' sumsArray"
  using assms
  by (subst makeMean_loop.simps, subst (2) makeMean_loop.simps)
     (simp add: Let_def calculator_update_eq [where this = this and this' = this'])

lemma makeMean_independent:
  fixes this this' :: calculator
  shows "makeMeanTruncationNums new this dataArray e = makeMeanTruncationNums new this' dataArray e"
  by (simp add: makeMeanTruncationNums_def
        makeMean_loop_independent [where i = 0 and this = this and this' = this'])

lemma accumulate_single: "accumulate [1] 0 [s] = [s + 1]"
  by (simp add: accumulate.simps [of _ 0] accumulate.simps [of _ "Suc 0"])

lemma accumulate_first: "accumulate [1] 0 [] = [1]"
  by (simp add: accumulate.simps [of _ 0] accumulate.simps [of _ "Suc 0"])

lemma makeMean_loop_done: "makeMean_loop new dataArray e 100 this sumsArray = Some (Inr sumsArray, this)"
  by (subst makeMean_loop.simps) simp

lemma makeMean_loop_single:
  fixes this :: calculator
  assumes "0 \<le> e" "i < 100"
  shows "makeMean_loop new [[d]] e i this [s] =
           Some (Inr [s + int (100 - i)], this\<lparr>private_jdr := new last_sample\<rparr>)"
  using assms(2)
proof (induction "99 - i" arbitrary: i this s)
  case 0
  then have i: "i = 99" by simp
  show ?case
    unfolding i
    by (subst makeMean_loop.simps)
       (simp add: Let_def single_run [OF assms(1)] accumulate_single makeMean_loop_done
          last_sample_def)
next
  case (Suc n)
  then have i: "i < 100" "Suc i < 100" "n = 99 - Suc i" by simp_all
  have IH: "makeMean_loop new [[d]] e (Suc i) c [s + 1] =
           Some (Inr [s + 1 + int (100 - Suc i)], c\<lparr>private_jdr := new last_sample\<rparr>)"
    for c :: calculator
    using Suc.hyps(1) [of "Suc i" c "s + 1"] i by simp
  have "int (100 - Suc i) + 1 = int (100 - i)"
    using i by simp
  then show ?case
    using i
    by (subst makeMean_loop.simps)
       (simp add: Let_def single_run [OF assms(1)] accumulate_single IH)
qed

lemma makeMean_single:
  fixes this :: calculator
  assumes "0 \<le> e"
  shows "makeMeanTruncationNums new this [[d]] e =
           Some (Inr [1], this\<lparr>private_jdr := new last_sample\<rparr>)"
proof -
  have "makeMean_loop new [[d]] e 0 this [] =
        makeMean_loop new [[d]] e 1 (this\<lparr>private_jdr := new 260732\<rparr>) [1]"
    by (subst makeMean_loop.simps)
       (simp add: Let_def single_run [OF assms] accumulate_first)
  also have "\<dots> = Some (Inr [1 + int (100 - 1)],
                 (this\<lparr>private_jdr := new 260732\<rparr>)\<lparr>private_jdr := new last_sample\<rparr>)"
    by (rule makeMean_loop_single [OF assms]) simp
  finally show ?thesis
    by (simp add: makeMeanTruncationNums_def)
qed


lemma makeSafe_loop_run:
  fixes this c :: calculator
  assumes K: "K < 5"
    and ret: "\<And>k. k \<le> K \<Longrightarrow>
        makeMeanTruncationNums new this dataArray (maximumError / 2 ^ k) = Some (Inr (plan k), this')"
    and est: "\<And>k. k \<le> K \<Longrightarrow>
        estimateMaxError (private_jdr this') dataArray (Some (map Some (plan k))) =
          Inr (trueMaxError k)"
    and fail: "\<And>k. k < K \<Longrightarrow> trueMaxError k > maximumError / 2 ^ k"
    and stop: "trueMaxError K \<le> maximumError / 2 ^ K \<or> K = 4"
    and j: "j \<le> K"
  shows "makeSafe_loop new dataArray j c tNumsArray (maximumError / 2 ^ j) =
           Some (Inr (Some (plan K)), this')"
  using j
proof (induction "K - j" arbitrary: j c tNumsArray)
  case 0
  then have j: "j = K" by simp
  have mean: "makeMeanTruncationNums new c dataArray (maximumError / 2 ^ K) =
      Some (Inr (plan K), this')"
    using ret [of K] makeMean_independent [of new c dataArray _ this] by simp
  show ?case
  proof (cases "trueMaxError K \<le> maximumError / 2 ^ K")
    case True
    then show ?thesis
      unfolding j using K
      by (subst makeSafe_loop.simps) (simp add: mean est)
  next
    case False
    then have K4: "\<not> Suc K < 5" using stop by simp
    have "makeSafe_loop new dataArray K c tNumsArray (maximumError / 2 ^ K) =
          makeSafe_loop new dataArray (Suc K) this' (Some (plan K)) (maximumError / 2 ^ K / 2)"
      using False K by (subst makeSafe_loop.simps) (simp add: mean est)
    also have "\<dots> = Some (Inr (Some (plan K)), this')"
      using K4 by (subst makeSafe_loop.simps) simp
    finally show ?thesis
      unfolding j .
  qed
next
  case (Suc n)
  then have j: "j < K" "Suc j \<le> K" "n = K - Suc j" by simp_all
  have mean: "makeMeanTruncationNums new c dataArray (maximumError / 2 ^ j) =
      Some (Inr (plan j), this')"
    using ret [of j] j makeMean_independent [of new c dataArray _ this] by simp
  have IH: "makeSafe_loop new dataArray (Suc j) this' (Some (plan j)) (maximumError / 2 ^ Suc j) =
      Some (Inr (Some (plan K)), this')"
    using Suc.hyps(1) [of "Suc j"] j by simp
  have half: "maximumError / 2 ^ j / 2 = maximumError / 2 ^ Suc j"
    by simp
  have "makeSafe_loop new dataArray j c tNumsArray (maximumError / 2 ^ j) =
        makeSafe_loop new dataArray (j + 1) this' (Some (plan j)) (maximumError / 2 ^ j / 2)"
    using j K fail [of j] est [of j]
    by (subst makeSafe_loop.simps) (simp add: mean del: power_Suc)
  then show ?case
    using IH by (simp only: half Suc_eq_plus1)
qed

lemma makeMean_loop_final:
  fixes this this' :: calculator
  assumes "makeMean_loop new dataArray e i this sumsArray = Some (Inr r, this')" "i < 100"
  shows "private_jdr this' = new last_sample"
  using assms
proof (induction "99 - i" arbitrary: i this sumsArray)
  case 0
  then have i: "i = 99" by simp
  show ?case
    using "0.prems"(1) unfolding i
    by (subst (asm) makeMean_loop.simps)
       (auto simp: Let_def makeMean_loop_done last_sample_def split: option.splits sum.splits)
next
  case (Suc n)
  then have i: "i < 100" "Suc i < 100" "n = 99 - Suc i" by simp_all
  from Suc.prems(1) obtain c s where "makeMean_loop new dataArray e (Suc i) c s = Some (Inr r, this')"
    using i(1)
    by (subst (asm) makeMean_loop.simps) (auto simp: Let_def split: option.splits sum.splits)
  then show ?case
    using Suc.hyps(1) [of "Suc i" c s] i by simp
qed

section \<open>The claims\<close>

text \<open>
  C1 (the code at a failing input).  For the single block with amplitudes 10, 3, 1, 1 at
  time 0 and the budget 2, \<open>makeTruncationNums\<close> returns the plan \<open>[3]\<close>, whose estimate
  \<open>2 * sqrt 3\<close> is above the budget, while the block has a fourth term.
\<close>

theorem optimizer_exceeds_budget:
  "makeTruncationNums (jdr_at 0) long_block 2 = Some (Inr [3]) \<and>
   estimateMaxError (jdr_at 0) long_block (Some [Some 3]) = Inr (2 * sqrt 3) \<and>
   \<not> 2 * sqrt 3 \<le> 2 \<and>
   [3] ! 0 < int (length (long_block ! 0))"
  using sqrt3_gt1 by (simp add: long_block_run long_block_estimate) (simp add: long_block_def)

text \<open>
  C2 (as the code behaves).  In \<open>calc\<close> an undefined entry \<open>plan[i]\<close> means all terms of
  block \<open>i\<close>, and the entry 0 means none of them: with \<open>plan[i]\<close> undefined the result
  exceeds the result with \<open>plan[i] = 0\<close> by the full sum of block \<open>i\<close> times
  \<open>JDECP(i)\<close>.
\<close>

theorem calc_undefined_all_zero_none:
  assumes "i < length dataArray" "i < length ts"
  shows "block_sum jdr (Some (ts[i := None])) i (dataArray ! i) =
           (\<Sum>d\<leftarrow>dataArray ! i. amplitude d * cos (phase jdr d)) \<and>
         block_sum jdr (Some (ts[i := Some 0])) i (dataArray ! i) = 0 \<and>
         calc jdr dataArray (Some (ts[i := None])) =
           calc jdr dataArray (Some (ts[i := Some 0])) +
           (\<Sum>d\<leftarrow>dataArray ! i. amplitude d * cos (phase jdr d)) * JDECP jdr i"
  using assms
  by (simp add: block_sum_zero block_sum_undefined calc_zero_vs_undefined)

theorem calc_undefined_all_zero_none_witness:
  "(0::nat) < length scenario \<and> (0::nat) < length [Some (3::int)] \<and>
   calc (jdr_at 0) scenario (Some [None]) = calc (jdr_at 0) scenario (Some [Some 0]) + 14"
  using calc_undefined_all_zero_none [of 0 scenario "[Some 3]" "jdr_at 0"]
  by (simp add: scenario_def phase_def tm_def jdr_at_def)

theorem calc_zero_is_not_all_counterexample:
  "calc (jdr_at 0) scenario (Some [Some 0]) = 0 \<and> calc (jdr_at 0) scenario (Some [None]) = 14 \<and>
   calc (jdr_at 0) scenario (Some [Some 0]) \<noteq> calc (jdr_at 0) scenario (Some [None])"
  by (simp add: calc_def block_sum_def truncation_def entry_def scenario_def tm_def jdr_at_def)

text \<open>
  C3 (as the code behaves).  For the single block of the three terms with amplitudes 10,
  3 and 1 at time 0, \<open>makeTruncationNums\<close> returns the plan \<open>[3]\<close> for the budget 25
  and for the budget 5: the bound is first tested in the third iteration, when three
  terms are already counted.
\<close>

theorem scenario_plans:
  "makeTruncationNums (jdr_at 0) scenario 25 = Some (Inr [3]) \<and>
   makeTruncationNums (jdr_at 0) scenario 5 = Some (Inr [3])"
  by (simp add: scenario_run)

theorem scenario_plan_25_counterexample:
  "makeTruncationNums (jdr_at 0) scenario 25 \<noteq> Some (Inr [1])"
  by (simp add: scenario_run)

text \<open>
  C4.  For every model and every plan whose specified entries are not negative,
  \<open>estimateMaxError\<close> returns twice the sum, over the blocks whose effective retained
  count \<open>n\<close> is not 0, of \<open>sqrt n * A * JDECP(i)\<close>, \<open>A\<close> the amplitude of term \<open>n - 1\<close>
  of block \<open>i\<close>; a block with \<open>n = 0\<close> adds nothing.
\<close>

theorem estimateMaxError_formula:
  assumes "nonneg_plan tNumsArray"
  shows "estimateMaxError jdr dataArray tNumsArray =
           Inr (2 * (\<Sum>i<length dataArray.
                  let n = retained tNumsArray i (dataArray ! i) in
                  if n = 0 then 0
                  else sqrt (real n) * amplitude (dataArray ! i ! (n - 1)) * JDECP jdr i))"
  using estimateMaxError_spec [OF assms, of jdr dataArray]
  by (simp add: estimate_spec_def block_bound_def)

theorem estimateMaxError_formula_witness:
  "nonneg_plan (Some [Some 1]) \<and>
   estimateMaxError (jdr_at 0) scenario (Some [Some 1]) = Inr 20"
  using estimateMaxError_formula [of "Some [Some 1]" "jdr_at 0" scenario]
  by (simp add: nonneg_plan_def scenario_def retained_def tm_def jdr_at_def)

text \<open>
  C5 (as the code behaves).  For a fixed model and time context with \<open>JDECP(i) \<ge> 0\<close>,
  raising the entry \<open>plan[i]\<close> from \<open>n \<ge> 1\<close> to \<open>n'\<close> within the length of block \<open>i\<close>
  gives an equal or smaller estimate when the products \<open>sqrt (j + 1) * A\<^sub>j\<close> of the block
  do not increase with \<open>j\<close>.
\<close>

theorem estimateMaxError_monotone:
  assumes "i < length dataArray" "i < length ts"
    and "nonneg_plan (Some ts)"
    and "ts ! i = Some n" "1 \<le> n" "n \<le> n'" "n' \<le> int (length (dataArray ! i))"
    and "0 \<le> JDECP jdr i"
    and "decaying (dataArray ! i)"
  shows "\<exists>e e'. estimateMaxError jdr dataArray (Some ts) = Inr e \<and>
                estimateMaxError jdr dataArray (Some (ts[i := Some n'])) = Inr e' \<and> e' \<le> e"
  using assms by (rule estimate_monotone)

theorem estimateMaxError_monotone_witness:
  "(0::nat) < length scenario \<and> (0::nat) < length [Some (1::int)] \<and>
   nonneg_plan (Some [Some 1]) \<and> [Some (1::int)] ! 0 = Some 1 \<and> (1::int) \<le> 1 \<and> (1::int) \<le> 2 \<and>
   2 \<le> int (length (scenario ! 0)) \<and> 0 \<le> JDECP (jdr_at 0) 0 \<and> decaying (scenario ! 0) \<and>
   (\<exists>e e'. estimateMaxError (jdr_at 0) scenario (Some [Some 1]) = Inr e \<and>
           estimateMaxError (jdr_at 0) scenario (Some ([Some 1][0 := Some 2])) = Inr e' \<and> e' \<le> e)"
proof -
  have h: "nonneg_plan (Some [Some 1])" "0 \<le> JDECP (jdr_at 0) 0"
    "2 \<le> int (length (scenario ! 0))" "(0::nat) < length scenario"
    by (simp_all add: nonneg_plan_def jdr_at_def scenario_def)
  from estimateMaxError_monotone [where i = 0 and dataArray = scenario and ts = "[Some 1]"
      and n = 1 and n' = 2 and jdr = "jdr_at 0"]
  show ?thesis
    using h decaying_scenario by simp
qed

theorem estimateMaxError_not_monotone_counterexample:
  "estimateMaxError (jdr_at 0) flat_pair (Some [Some 0]) = Inr 0 \<and>
   estimateMaxError (jdr_at 0) flat_pair (Some [Some 1]) = Inr 20 \<and>
   estimateMaxError (jdr_at 0) flat_pair (Some [Some 2]) = Inr (sqrt 2 * 18) \<and>
   \<not> (20::real) \<le> 0 \<and> \<not> sqrt 2 * 18 \<le> 20"
proof -
  have "(10 / 9) ^ 2 < (2::real)" by (simp add: power2_eq_square)
  then have "10 / 9 < sqrt 2" by (rule real_less_rsqrt)
  then have "\<not> sqrt 2 * 18 \<le> 20" by simp
  then show ?thesis
    by (simp add: estimateMaxError_def js_nth_def truncation_def entry_def flat_pair_def tm_def
          jdr_at_def)
qed

text \<open>
  C6 (the code).  \<open>makeMeanTruncationNums\<close> assigns \<open>this.jdr\<close> for every sample and
  does not restore it: whenever it returns a plan, the calculator's time context is the
  repository of the last sample, \<open>jd = 260732 + 99 * (3912458 - 260732) / 100\<close>,
  whatever it was before the call.
\<close>

theorem makeMeanTruncationNums_overwrites_jdr:
  fixes this this' :: calculator
  assumes "makeMeanTruncationNums new this dataArray maximumError = Some (Inr tNumsArray, this')"
  shows "private_jdr this' = new last_sample"
proof -
  from assms obtain r where
    "makeMean_loop new dataArray maximumError 0 this [] = Some (Inr r, this')"
    by (auto simp: makeMeanTruncationNums_def split: option.splits sum.splits prod.splits)
  then show ?thesis
    by (rule makeMean_loop_final) simp
qed

theorem makeMeanTruncationNums_overwrites_jdr_witness:
  "makeMeanTruncationNums new_jdr calculator0 one_term 1 =
     Some (Inr [1], calculator0\<lparr>private_jdr := new_jdr last_sample\<rparr>) \<and>
   private_jdr (calculator0\<lparr>private_jdr := new_jdr last_sample\<rparr>) = new_jdr last_sample \<and>
   JDEC (private_jdr calculator0) = 0 \<and>
   JDEC (new_jdr last_sample) \<noteq> 0"
proof -
  have run: "makeMeanTruncationNums new_jdr calculator0 one_term 1 =
     Some (Inr [1], calculator0\<lparr>private_jdr := new_jdr last_sample\<rparr>)"
    unfolding one_term_def by (rule makeMean_single) simp
  from makeMeanTruncationNums_overwrites_jdr [OF run] run
  show ?thesis
    by (simp add: calculator0_def new_jdr_def jdr_at_def last_sample_def)
qed

text \<open>
  C7 (the code at a failing input).  For the two blocks \<open>[10]\<close> and \<open>[5]\<close> at time 0
  (where \<open>JDECP(1) = 0\<close>) and the budget 0, \<open>makeTruncationNums\<close> never returns: from
  the fourth iteration on the state repeats with only \<open>i\<close> growing.
\<close>

theorem optimizer_runs_forever:
  "nonempty_blocks two_blocks \<and> makeTruncationNums (jdr_at 0) two_blocks 0 = None"
  by (simp add: two_blocks_diverges) (simp add: nonempty_blocks_def two_blocks_def)

text \<open>
  C8.  \<open>makeSafeTruncationNums\<close> computes at most five plans, for the budgets
  \<open>maximumError / 2 ^ k\<close> with \<open>k = 0, \<dots>, 4\<close>, each by \<open>makeMeanTruncationNums\<close>
  followed by \<open>estimateMaxError\<close>.  It returns plan \<open>K\<close> where \<open>K\<close> is the first index
  whose estimate is within its budget, and plan 4 when none is: provided the calls for
  \<open>k \<le> K\<close> return, the result is a plan and no exception.  (What
  \<open>makeMeanTruncationNums\<close> returns does not depend on the time context the calculator
  has before the call, so the calls are stated for the calculator \<open>this\<close> of the caller.)
\<close>

theorem makeSafeTruncationNums_retries:
  fixes this :: calculator
  assumes "K < 5"
    and "\<And>k. k \<le> K \<Longrightarrow>
        makeMeanTruncationNums new this dataArray (maximumError / 2 ^ k) = Some (Inr (plan k), this')"
    and "\<And>k. k \<le> K \<Longrightarrow>
        estimateMaxError (private_jdr this') dataArray (Some (map Some (plan k))) =
          Inr (trueMaxError k)"
    and "\<And>k. k < K \<Longrightarrow> trueMaxError k > maximumError / 2 ^ k"
    and "trueMaxError K \<le> maximumError / 2 ^ K \<or> K = 4"
  shows "makeSafeTruncationNums new this dataArray maximumError =
           Some (Inr (Some (plan K)), this')"
  using makeSafe_loop_run [OF assms, of 0 this None]
  by (simp add: makeSafeTruncationNums_def)

theorem makeSafeTruncationNums_retries_witness:
  "makeSafeTruncationNums new_jdr calculator0 one_term 1 =
     Some (Inr (Some [1]), calculator0\<lparr>private_jdr := new_jdr last_sample\<rparr>) \<and>
   estimateMaxError (new_jdr last_sample) one_term (Some (map Some [1])) = Inr 2 \<and>
   \<not> (2::real) \<le> 1 / 2 ^ 4"
proof -
  have est: "estimateMaxError (new_jdr last_sample) one_term (Some (map Some [1])) = Inr 2"
    by (simp add: estimateMaxError_def js_nth_def truncation_def entry_def one_term_def tm_def
          new_jdr_def jdr_at_def)
  have small: "(1::real) / 2 ^ k < 2" for k :: nat
  proof -
    have "(1::real) / 2 ^ k \<le> 1" by simp
    then show ?thesis by linarith
  qed
  have "makeSafeTruncationNums new_jdr calculator0 one_term 1 =
     Some (Inr (Some [1]), calculator0\<lparr>private_jdr := new_jdr last_sample\<rparr>)"
  proof (rule makeSafeTruncationNums_retries [where K = 4 and plan = "\<lambda>k. [1]"
        and trueMaxError = "\<lambda>k. 2"])
    show "(4::nat) < 5" by simp
    show "makeMeanTruncationNums new_jdr calculator0 one_term (1 / 2 ^ k) =
        Some (Inr [1], calculator0\<lparr>private_jdr := new_jdr last_sample\<rparr>)" for k
      unfolding one_term_def by (rule makeMean_single) simp
    show "estimateMaxError (private_jdr (calculator0\<lparr>private_jdr := new_jdr last_sample\<rparr>))
        one_term (Some (map Some [1])) = Inr 2" for k :: nat
      using est by simp
    show "(1::real) / 2 ^ k < 2" for k :: nat
      by (rule small)
    show "(2::real) \<le> 1 / 2 ^ 4 \<or> (4::nat) = 4" by simp
  qed
  then show ?thesis
    using est by simp
qed

text \<open>
  C9.  The adjustment \<open>maximumError -= (trueMaxError - maximumError) * 4 / 3\<close> has no
  effect on the result: for every model and budget, \<open>makeTruncationNums\<close> and the
  variant without that statement return the same plan, raise the same exception, or
  both run forever.
\<close>

theorem adjustment_is_dead:
  "makeTruncationNums_plain jdr dataArray maximumError =
   makeTruncationNums jdr dataArray maximumError"
  by (simp add: makeTruncationNums_plain_def makeTruncationNums_def loop_plain_eq)

text \<open>
  C10.  For a model whose blocks are all non-empty and a budget that is not negative,
  a plan returned by \<open>makeTruncationNums\<close> has one entry per block, and entry \<open>k\<close> lies
  between 0 and the length of block \<open>k\<close>.
\<close>

theorem makeTruncationNums_plan_bounds:
  assumes "nonempty_blocks dataArray" and "0 \<le> maximumError"
    and "makeTruncationNums jdr dataArray maximumError = Some (Inr tNumsArray)"
  shows "length tNumsArray = length dataArray \<and>
         (\<forall>k<length dataArray. 0 \<le> tNumsArray ! k \<and>
                                tNumsArray ! k \<le> int (length (dataArray ! k)))"
proof (cases "dataArray = []")
  case True
  have "body jdr [] (init_state [] maximumError) = Throw TypeError"
    by (simp add: body_def choose_item_def init_state_def)
  then have "loop jdr [] (init_state [] maximumError) = Some (Inl TypeError)"
    by (rule loop_throw)
  then show ?thesis
    using assms(2,3) True by (simp add: makeTruncationNums_def)
next
  case False
  have run: "loop jdr dataArray (init_state dataArray maximumError) = Some (Inr tNumsArray)"
    using assms(2,3) by (simp add: makeTruncationNums_def)
  from loop_result [OF run assms(1) _ init_state_inv [OF assms(1)]] False
  have "counts_in dataArray (\<lambda>k. True) tNumsArray"
    by simp
  then show ?thesis
    by (simp add: counts_in_def)
qed

theorem makeTruncationNums_plan_bounds_witness:
  "nonempty_blocks scenario \<and> (0::real) \<le> 25 \<and>
   makeTruncationNums (jdr_at 0) scenario 25 = Some (Inr [3]) \<and>
   length [3::int] = length scenario \<and> (0::int) \<le> [3] ! 0 \<and> [3] ! 0 \<le> int (length (scenario ! 0))"
proof -
  have ne: "nonempty_blocks scenario"
    by (simp add: nonempty_blocks_def scenario_def)
  have run: "makeTruncationNums (jdr_at 0) scenario 25 = Some (Inr [3])"
    by (rule scenario_run) simp
  from makeTruncationNums_plan_bounds [OF ne _ run] ne run
  show ?thesis
    by (simp add: scenario_def)
qed

end
